theory Spec2Isabelle
  imports Complex_Main "HOL-Library.Sublist"
begin

section \<open>JavaScript values\<close>

text \<open>
  The worker reads a JSON payload and addresses it by position. A value is what
  \<open>JSON.parse\<close> can return, plus \<open>undefined\<close>, which a read past the end of an array
  or of an absent property yields.

  Numbers are modelled as integers, which a double holds exactly up to \<open>2 ^ 53\<close>; the
  quotient of such a number by 100 is a rational, and \<open>NaN\<close> is \<open>None\<close>. A number with a
  fraction in the payload is outside the model. Strings are lists of characters.

  \<open>JSON.parse\<close> builds a tree: no array or object occurs twice in it, so each match is
  visited once and the assignment of its \<open>league\<close> property is seen by nothing else.
  Strict equality and the membership test of a \<open>Set\<close> compare primitives by value, which
  is equality here. The fields that the code compares (identifier, team names, league name)
  are strings or numbers in the upstream contract; an array or object in such a field,
  which JavaScript would compare by reference, is compared by content here.
\<close>

datatype jsval =
    JUndefined
  | JNull
  | JBool bool
  | JNum int
  | JStr string
  | JArr "jsval list"
  | JObj "(string \<times> jsval) list"

datatype js_error = TypeError | HttpError nat | NetworkError

subsection \<open>Number to string\<close>

definition digit_char :: "nat \<Rightarrow> char" where
  "digit_char d = ''0123456789'' ! d"

fun nat_to_string :: "nat \<Rightarrow> string" where
  "nat_to_string n =
     (if n < 10 then [digit_char n] else nat_to_string (n div 10) @ [digit_char (n mod 10)])"

declare nat_to_string.simps [simp del]

definition int_to_string :: "int \<Rightarrow> string" where
  "int_to_string i = (if i < 0 then CHR ''-'' # nat_to_string (nat (- i)) else nat_to_string (nat i))"

text \<open>\<open>String(x)\<close> for a number that may be \<open>NaN\<close>.\<close>

definition num_to_string :: "int option \<Rightarrow> string" where
  "num_to_string x = (case x of None \<Rightarrow> ''NaN'' | Some i \<Rightarrow> int_to_string i)"

text \<open>
  The decimal rendering of \<open>k / 100\<close>: the integer part, then the fraction without its
  trailing zero, as \<open>String\<close> prints the double nearest to it (\<open>0.5\<close>, \<open>-0.01\<close>, \<open>70\<close>).
\<close>

definition fraction_digits :: "nat \<Rightarrow> string" where
  "fraction_digits f =
     (if f = 0 then []
      else if f mod 10 = 0 then [CHR ''.'', digit_char (f div 10)]
      else [CHR ''.'', digit_char (f div 10), digit_char (f mod 10)])"

definition hundredths_to_string :: "int \<Rightarrow> string" where
  "hundredths_to_string k =
     (let m = nat \<bar>k\<bar>;
          body = nat_to_string (m div 100) @ fraction_digits (m mod 100)
      in if k < 0 then CHR ''-'' # body else body)"

definition quotient_to_string :: "rat option \<Rightarrow> string" where
  "quotient_to_string x =
     (case x of None \<Rightarrow> ''NaN'' | Some r \<Rightarrow> hundredths_to_string \<lfloor>r * 100\<rfloor>)"

subsection \<open>Coercions\<close>

text \<open>\<open>Array.prototype.join\<close> with a comma.\<close>

fun join_comma :: "string list \<Rightarrow> string" where
  "join_comma [] = []"
| "join_comma [s] = s"
| "join_comma (s # t # ss) = s @ CHR '','' # join_comma (t # ss)"

text \<open>\<open>ToString\<close>, as a template literal applies it.\<close>

fun to_string :: "jsval \<Rightarrow> string" where
  "to_string JUndefined = ''undefined''"
| "to_string JNull = ''null''"
| "to_string (JBool b) = (if b then ''true'' else ''false'')"
| "to_string (JNum i) = int_to_string i"
| "to_string (JStr s) = s"
| "to_string (JArr xs) =
     join_comma (map (\<lambda>x. if x = JUndefined \<or> x = JNull then [] else to_string x) xs)"
| "to_string (JObj kvs) = ''[object Object]''"

definition is_space :: "char \<Rightarrow> bool" where
  "is_space c = (c \<in> set [CHR '' '', CHR 0x09, CHR 0x0A, CHR 0x0B, CHR 0x0C, CHR 0x0D])"

definition trim :: "string \<Rightarrow> string" where
  "trim s = rev (dropWhile is_space (rev (dropWhile is_space s)))"

definition is_digit :: "char \<Rightarrow> bool" where
  "is_digit c = (c \<in> set ''0123456789'')"

definition digit_val :: "char \<Rightarrow> nat" where
  "digit_val c = of_char c - 48"

definition digits_to_nat :: "string \<Rightarrow> nat" where
  "digits_to_nat s = foldl (\<lambda>acc c. 10 * acc + digit_val c) 0 s"

text \<open>
  \<open>Number(s)\<close> on a string: surrounding white space is dropped, the empty string is 0, a
  decimal integer literal with an optional sign is its value. Literals with a fraction, an
  exponent or a radix prefix, which none of the fields read here carries, are not modelled
  and read as \<open>NaN\<close>, as every other text does.
\<close>

definition string_to_number :: "string \<Rightarrow> int option" where
  "string_to_number s =
     (let t = trim s in
      if t = [] then Some 0
      else if hd t = CHR ''-'' \<and> tl t \<noteq> [] \<and> list_all is_digit (tl t)
        then Some (- int (digits_to_nat (tl t)))
      else if hd t = CHR ''+'' \<and> tl t \<noteq> [] \<and> list_all is_digit (tl t)
        then Some (int (digits_to_nat (tl t)))
      else if list_all is_digit t then Some (int (digits_to_nat t))
      else None)"

text \<open>\<open>ToNumber\<close>, as the division operator applies it.\<close>

definition to_number :: "jsval \<Rightarrow> int option" where
  "to_number v =
     (case v of
        JUndefined \<Rightarrow> None
      | JNull \<Rightarrow> Some 0
      | JBool b \<Rightarrow> Some (if b then 1 else 0)
      | JNum i \<Rightarrow> Some i
      | JStr s \<Rightarrow> string_to_number s
      | JArr xs \<Rightarrow> string_to_number (to_string v)
      | JObj kvs \<Rightarrow> None)"

text \<open>\<open>x / 100\<close>.\<close>

definition div100 :: "int option \<Rightarrow> rat option" where
  "div100 x = map_option (\<lambda>i. of_int i / 100) x"

section \<open>formatHelpers.js\<close>

text \<open>
  \<open>formatOdds\<close>: \<open>formatted_odds\<close> is the constant \<open>formatted\<close> of the source, the
  function returns it unless it is the literal \<open>0-0.01\<close>. A comparison with \<open>NaN\<close> is
  false.
\<close>

definition formatted_odds :: "jsval \<Rightarrow> jsval \<Rightarrow> string" where
  "formatted_odds num1 num2 =
     (let val = div100 (to_number num2) in
      to_string num1 @
        (if (case val of None \<Rightarrow> False | Some r \<Rightarrow> r > 0) then CHR ''+'' # quotient_to_string val
         else if val = Some (- (1 / 100)) then []
         else quotient_to_string val))"

definition formatOdds :: "jsval \<Rightarrow> jsval \<Rightarrow> string" where
  "formatOdds num1 num2 =
     (let formatted = formatted_odds num1 num2 in
      if formatted = ''0-0.01'' then [] else formatted)"

section \<open>timeHelpers.js\<close>

text \<open>Arithmetic on numbers that may be \<open>NaN\<close>: an operation on \<open>NaN\<close> is \<open>NaN\<close>.\<close>

definition num_op :: "(int \<Rightarrow> int \<Rightarrow> int) \<Rightarrow> int option \<Rightarrow> int option \<Rightarrow> int option" where
  "num_op f x y = (case x of None \<Rightarrow> None | Some a \<Rightarrow> (case y of None \<Rightarrow> None | Some b \<Rightarrow> Some (f a b)))"

text \<open>The remainder operator \<open>%\<close>: the result has the sign of the dividend.\<close>

definition js_rem :: "int \<Rightarrow> int \<Rightarrow> int" where
  "js_rem a b = (if a < 0 then - ((- a) mod \<bar>b\<bar>) else a mod \<bar>b\<bar>)"

text \<open>\<open>timeStr.replace(/(AM|PM)/, ' $1')\<close>: a space before the first \<open>AM\<close> or \<open>PM\<close>.\<close>

fun space_before_period :: "string \<Rightarrow> string" where
  "space_before_period (a # b # cs) =
     (if (a = CHR ''A'' \<or> a = CHR ''P'') \<and> b = CHR ''M'' then CHR '' '' # a # b # cs
      else a # space_before_period (b # cs))"
| "space_before_period cs = cs"

text \<open>\<open>s.split(c)\<close> on a one-character separator: never empty, keeps empty pieces.\<close>

fun split_on :: "char \<Rightarrow> string \<Rightarrow> string list" where
  "split_on c [] = [[]]"
| "split_on c (x # xs) =
     (if x = c then [] # split_on c xs
      else (case split_on c xs of [] \<Rightarrow> [[x]] | w # ws \<Rightarrow> (x # w) # ws))"

text \<open>\<open>s.padStart(2, '0')\<close>.\<close>

definition padStart2 :: "string \<Rightarrow> string" where
  "padStart2 s = replicate (2 - length s) CHR ''0'' @ s"

text \<open>
  The body of \<open>subtract90Minutes\<close> on a string. A piece that the destructuring does not
  find is \<open>undefined\<close>; \<open>minute\<close> is only used in the sum, where \<open>undefined\<close> gives \<open>NaN\<close>.
\<close>

definition subtract90 :: "string \<Rightarrow> string" where
  "subtract90 timeStr =
     (let normalized = trim (space_before_period timeStr);
          parts = split_on CHR '' '' normalized;
          time = hd parts;
          period = (if 1 < length parts then JStr (parts ! 1) else JUndefined);
          nums = map string_to_number (split_on CHR '':'' time);
          hour0 = hd nums;
          minute = (if 1 < length nums then nums ! 1 else None);
          hour1 = (if period = JStr ''PM'' \<and> hour0 \<noteq> Some 12 then num_op (+) hour0 (Some 12) else hour0);
          hour = (if period = JStr ''AM'' \<and> hour1 = Some 12 then Some 0 else hour1);
          total0 = num_op (+) (num_op (*) hour (Some 60)) minute;
          total1 = num_op (-) total0 (Some 90);
          totalMinutes = (if (case total1 of None \<Rightarrow> False | Some t \<Rightarrow> t < 0)
                          then num_op (+) total1 (Some 1440) else total1);
          newHour0 = num_op (div) totalMinutes (Some 60);
          newMinute = num_op js_rem totalMinutes (Some 60);
          newPeriod = (if (case newHour0 of None \<Rightarrow> False | Some h \<Rightarrow> h \<ge> 12) then ''PM'' else ''AM'');
          newHour1 = num_op js_rem newHour0 (Some 12);
          newHour = (if newHour1 = Some 0 then Some 12 else newHour1)
      in num_to_string newHour @ CHR '':'' # padStart2 (num_to_string newMinute) @ newPeriod)"

text \<open>
  \<open>subtract90Minutes\<close>: the method call \<open>timeStr.replace\<close> raises a \<open>TypeError\<close> on
  \<open>undefined\<close> and \<open>null\<close>, and on a number, a boolean, an array or an object, which have
  no such method.
\<close>

definition subtract90Minutes :: "jsval \<Rightarrow> js_error + string" where
  "subtract90Minutes timeStr =
     (case timeStr of JStr s \<Rightarrow> Inr (subtract90 s) | _ \<Rightarrow> Inl TypeError)"

section \<open>oddsService.js\<close>

subsection \<open>Reading values\<close>

text \<open>
  \<open>v[i]\<close> on a value that is not \<open>undefined\<close> or \<open>null\<close>: the element of an array, the
  property of an object whose key is the decimal numeral of \<open>i\<close>, the character of a string,
  and \<open>undefined\<close> where there is none. An object lists each of its keys once.
\<close>

fun read_prop :: "jsval \<Rightarrow> nat \<Rightarrow> jsval" where
  "read_prop (JArr xs) i = (if i < length xs then xs ! i else JUndefined)"
| "read_prop (JObj kvs) i = (case map_of kvs (nat_to_string i) of None \<Rightarrow> JUndefined | Some v \<Rightarrow> v)"
| "read_prop (JStr s) i = (if i < length s then JStr [s ! i] else JUndefined)"
| "read_prop v i = JUndefined"

text \<open>\<open>v[i]\<close> on any value: reading a property of \<open>undefined\<close> or \<open>null\<close> raises.\<close>

definition get_prop :: "jsval \<Rightarrow> nat \<Rightarrow> js_error + jsval" where
  "get_prop v i = (if v = JUndefined \<or> v = JNull then Inl TypeError else Inr (read_prop v i))"

fun isArray :: "jsval \<Rightarrow> bool" where
  "isArray (JArr xs) = True"
| "isArray v = False"

text \<open>The \<open>length\<close> of an array; the code reads it behind \<open>Array.isArray\<close> only.\<close>

fun array_length :: "jsval \<Rightarrow> nat" where
  "array_length (JArr xs) = length xs"
| "array_length v = 0"

text \<open>The values a property can be assigned on: in module code the assignment raises on the others.\<close>

fun is_object :: "jsval \<Rightarrow> bool" where
  "is_object (JArr xs) = True"
| "is_object (JObj kvs) = True"
| "is_object v = False"

fun truthy :: "jsval \<Rightarrow> bool" where
  "truthy JUndefined = False"
| "truthy JNull = False"
| "truthy (JBool b) = b"
| "truthy (JNum i) = (i \<noteq> 0)"
| "truthy (JStr s) = (s \<noteq> [])"
| "truthy v = True"

subsection \<open>The request\<close>

text \<open>\<open>addCacheBusting\<close>; \<open>timestamp\<close> is the value of \<open>new Date().getTime()\<close>.\<close>

definition addCacheBusting :: "string \<Rightarrow> int \<Rightarrow> string" where
  "addCacheBusting url timestamp = url @ ''&_='' @ int_to_string timestamp"

definition unreserved :: "char \<Rightarrow> bool" where
  "unreserved c =
     (c \<in> set ''ABCDEFGHIJKLMNOPQRSTUVWXYZabcdefghijklmnopqrstuvwxyz0123456789-_.!~*()''
      \<or> c = CHR 0x27)"

definition hex_char :: "nat \<Rightarrow> char" where
  "hex_char d = ''0123456789ABCDEF'' ! d"

definition encodeURIComponent :: "string \<Rightarrow> string" where
  "encodeURIComponent s =
     concat (map (\<lambda>c. if unreserved c then [c]
                       else [CHR ''%'', hex_char (of_char c div 16), hex_char (of_char c mod 16)]) s)"

definition fullUrl :: "string \<Rightarrow> string \<Rightarrow> int \<Rightarrow> int \<Rightarrow> string" where
  "fullUrl apiUrlBase proxyUrl lid timestamp =
     proxyUrl @ encodeURIComponent (addCacheBusting (apiUrlBase @ int_to_string lid) timestamp)"

text \<open>
  What \<open>fetch\<close> gives for a URL: a rejection, or a response with its \<open>ok\<close> flag, its status
  and the outcome of \<open>response.text()\<close> (\<open>None\<close> when reading the body rejects).
\<close>

record response =
  ok :: bool
  status :: nat
  body :: "string option"

datatype fetch_outcome = Rejected | Responded response

subsection \<open>fetchAndProcessData\<close>

text \<open>\<open>rawText.replace(/'/g, '"')\<close>.\<close>

definition replace_quotes :: "string \<Rightarrow> string" where
  "replace_quotes rawText = map (\<lambda>c. if c = CHR 0x27 then CHR 0x22 else c) rawText"

text \<open>
  \<open>JSON.parse\<close> is a parameter: \<open>None\<close> is its \<open>SyntaxError\<close>. \<open>fetchAndProcessData_try\<close>
  is the \<open>try\<close> block, whose \<open>Inl\<close> is what the \<open>catch\<close> receives.
\<close>

definition fetchAndProcessData_try ::
  "(string \<Rightarrow> jsval option) \<Rightarrow> (string \<Rightarrow> fetch_outcome) \<Rightarrow> string \<Rightarrow> string \<Rightarrow> int \<Rightarrow> int
     \<Rightarrow> js_error + jsval" where
  "fetchAndProcessData_try json_parse fetch apiUrlBase proxyUrl lid timestamp =
     (case fetch (fullUrl apiUrlBase proxyUrl lid timestamp) of
        Rejected \<Rightarrow> Inl NetworkError
      | Responded response \<Rightarrow>
          if \<not> ok response then
            (case body response of
               None \<Rightarrow> Inl NetworkError
             | Some errorText \<Rightarrow> Inl (HttpError (status response)))
          else
            (case body response of
               None \<Rightarrow> Inl NetworkError
             | Some rawText \<Rightarrow>
                 (let cleaned = replace_quotes rawText in
                  case json_parse cleaned of
                    None \<Rightarrow> Inr (JArr [])
                  | Some parsed \<Rightarrow>
                      if truthy parsed \<and> isArray parsed \<and> array_length parsed > 3
                      then Inr (read_prop parsed 3)
                      else Inr (JArr []))))"

definition fetchAndProcessData ::
  "(string \<Rightarrow> jsval option) \<Rightarrow> (string \<Rightarrow> fetch_outcome) \<Rightarrow> string \<Rightarrow> string \<Rightarrow> int \<Rightarrow> int
     \<Rightarrow> js_error + jsval" where
  "fetchAndProcessData json_parse fetch apiUrlBase proxyUrl lid timestamp =
     (case fetchAndProcessData_try json_parse fetch apiUrlBase proxyUrl lid timestamp of
        Inl error \<Rightarrow> Inr (JArr [])
      | Inr v \<Rightarrow> Inr v)"

subsection \<open>fetchOddsData\<close>

text \<open>
  A match of \<open>finalArr\<close>: the array (or object) of the payload with the \<open>league\<close> property
  that the loop assigns to it.
\<close>

record normalized_match =
  raw_match :: jsval
  match_league :: jsval

text \<open>
  The variables of the loop: the two locals and the module-level \<open>leagueCollection\<close>. A
  \<open>Set\<close> is the list of its members in insertion order.
\<close>

record loop_state =
  uniqueMatchIds :: "jsval list"
  finalArr :: "normalized_match list"
  leagueCollection :: "jsval list"

definition set_has :: "jsval list \<Rightarrow> jsval \<Rightarrow> bool" where
  "set_has s v = (v \<in> set s)"

definition set_add :: "jsval list \<Rightarrow> jsval \<Rightarrow> jsval list" where
  "set_add s v = (if v \<in> set s then s else s @ [v])"

text \<open>
  \<open>forEach\<close> with a callback that may raise: the exception leaves the loop, and the state
  reached so far goes with it, since \<open>leagueCollection\<close> outlives the call.
\<close>

fun forEach ::
  "(loop_state \<Rightarrow> 'a \<Rightarrow> (js_error \<times> loop_state) + loop_state) \<Rightarrow> 'a list \<Rightarrow> loop_state
     \<Rightarrow> (js_error \<times> loop_state) + loop_state" where
  "forEach f [] st = Inr st"
| "forEach f (x # xs) st = (case f st x of Inl e \<Rightarrow> Inl e | Inr st' \<Rightarrow> forEach f xs st')"

text \<open>The callback of \<open>matches.forEach\<close>.\<close>

definition collectMatch :: "jsval \<Rightarrow> loop_state \<Rightarrow> jsval \<Rightarrow> (js_error \<times> loop_state) + loop_state" where
  "collectMatch leagueMeta st match =
     (case get_prop leagueMeta 1 of
        Inl e \<Rightarrow> Inl (e, st)
      | Inr name \<Rightarrow>
          if \<not> is_object match then Inl (TypeError, st)
          else
            (let m = \<lparr>raw_match = match, match_league = name\<rparr>;
                 matchId = read_prop match 3;
                 st1 = (if \<not> set_has (uniqueMatchIds st) matchId
                        then st\<lparr>uniqueMatchIds := set_add (uniqueMatchIds st) matchId,
                                finalArr := finalArr st @ [m]\<rparr>
                        else st);
                 st2 = (if \<not> set_has (leagueCollection st1) (match_league m)
                        then st1\<lparr>leagueCollection := set_add (leagueCollection st1) (match_league m)\<rparr>
                        else st1)
             in Inr st2))"

text \<open>
  The parameter pattern \<open>[leagueMeta, matches]\<close>: an array and a string can be iterated,
  anything else raises.
\<close>

definition destructure_pair :: "jsval \<Rightarrow> js_error + (jsval \<times> jsval)" where
  "destructure_pair el =
     (case el of
        JArr xs \<Rightarrow> Inr (read_prop el 0, read_prop el 1)
      | JStr s \<Rightarrow> Inr (read_prop el 0, read_prop el 1)
      | _ \<Rightarrow> Inl TypeError)"

text \<open>The callback of \<open>result.forEach\<close>.\<close>

definition collectLeague :: "loop_state \<Rightarrow> jsval \<Rightarrow> (js_error \<times> loop_state) + loop_state" where
  "collectLeague st el =
     (case destructure_pair el of
        Inl e \<Rightarrow> Inl (e, st)
      | Inr (leagueMeta, matches) \<Rightarrow>
          (case matches of
             JArr ms \<Rightarrow> forEach (collectMatch leagueMeta) ms st
           | _ \<Rightarrow> Inr st))"

text \<open>
  The body of \<open>fetchOddsData\<close> after the \<open>await\<close>: \<open>result.forEach\<close> is a method of arrays
  only. The second component is \<open>leagueCollection\<close> after the call.
\<close>

definition collectMatches :: "jsval \<Rightarrow> jsval list \<Rightarrow> (js_error + normalized_match list) \<times> jsval list" where
  "collectMatches result lc =
     (let st0 = \<lparr>uniqueMatchIds = [], finalArr = [], leagueCollection = lc\<rparr> in
      case result of
        JArr els \<Rightarrow>
          (case forEach collectLeague els st0 of
             Inl (e, st) \<Rightarrow> (Inl e, leagueCollection st)
           | Inr st \<Rightarrow> (Inr (finalArr st), leagueCollection st))
      | _ \<Rightarrow> (Inl TypeError, lc))"

definition fetchOddsData ::
  "(string \<Rightarrow> jsval option) \<Rightarrow> (string \<Rightarrow> fetch_outcome) \<Rightarrow> string \<Rightarrow> string \<Rightarrow> int \<Rightarrow> int
     \<Rightarrow> jsval list \<Rightarrow> (js_error + normalized_match list) \<times> jsval list" where
  "fetchOddsData json_parse fetch apiUrlBase proxyUrl lid timestamp lc =
     (case fetchAndProcessData json_parse fetch apiUrlBase proxyUrl lid timestamp of
        Inl e \<Rightarrow> (Inl e, lc)
      | Inr result \<Rightarrow> collectMatches result lc)"

subsection \<open>getFormattedMatchesAsJson\<close>

record formatted_match =
  league :: jsval
  time :: string
  homeTeam :: jsval
  awayTeam :: jsval
  isHomeTeamHighlighted :: bool
  isAwayTeamHighlighted :: bool
  odds :: string
  finalGoalPoints :: string

definition highlightedTeamName :: "jsval \<Rightarrow> jsval" where
  "highlightedTeamName e = (if read_prop e 34 = JNum 1 then read_prop e 16 else read_prop e 20)"

text \<open>
  The callback of \<open>data.forEach\<close>, without the \<open>push\<close>. Only the call of
  \<open>subtract90Minutes\<close> can raise.
\<close>

definition formatMatch :: "normalized_match \<Rightarrow> js_error + formatted_match" where
  "formatMatch eachMatch =
     (let e = raw_match eachMatch;
          league = (if truthy (match_league eachMatch) then match_league eachMatch else JStr ''Unknown League'');
          valG = div100 (to_number (read_prop e 51));
          formatVal = (if (case valG of None \<Rightarrow> False | Some r \<Rightarrow> r \<ge> 0)
                       then CHR ''+'' # quotient_to_string valG else quotient_to_string valG);
          finalGP = (if to_string (read_prop e 55) @ formatVal = ''0-0.01'' then []
                     else to_string (read_prop e 55) @ formatVal)
      in case subtract90Minutes (read_prop e 8) of
           Inl err \<Rightarrow> Inl err
         | Inr t \<Rightarrow>
             Inr \<lparr>league = league,
                  time = t,
                  homeTeam = read_prop e 16,
                  awayTeam = read_prop e 20,
                  isHomeTeamHighlighted = (highlightedTeamName e = read_prop e 16),
                  isAwayTeamHighlighted = (highlightedTeamName e = read_prop e 20),
                  odds = formatOdds (read_prop e 52) (read_prop e 50),
                  finalGoalPoints = finalGP\<rparr>)"

text \<open>\<open>data.forEach\<close>, pushing onto \<open>formattedJson\<close>.\<close>

fun formatEach :: "normalized_match list \<Rightarrow> formatted_match list \<Rightarrow> js_error + formatted_match list" where
  "formatEach [] formattedJson = Inr formattedJson"
| "formatEach (m # ms) formattedJson =
     (case formatMatch m of
        Inl err \<Rightarrow> Inl err
      | Inr r \<Rightarrow> formatEach ms (formattedJson @ [r]))"

text \<open>
  The \<open>try\<close> and \<open>catch\<close> of \<open>getFormattedMatchesAsJson\<close>, from the outcome of the awaited
  \<open>fetchOddsData\<close>: an exception of either stage gives the empty array.
\<close>

definition formatData :: "js_error + normalized_match list \<Rightarrow> formatted_match list" where
  "formatData fetched =
     (case fetched of
        Inl error \<Rightarrow> []
      | Inr data \<Rightarrow>
          if length data = 0 then []
          else (case formatEach data [] of Inl error \<Rightarrow> [] | Inr formattedJson \<Rightarrow> formattedJson))"

text \<open>
  A run of the worker's pipeline: the environment is \<open>JSON.parse\<close>, the network, the clock
  and the \<open>leagueCollection\<close> left by earlier runs; the result is the array returned and
  \<open>leagueCollection\<close> afterwards.
\<close>

definition getFormattedMatchesAsJson ::
  "(string \<Rightarrow> jsval option) \<Rightarrow> (string \<Rightarrow> fetch_outcome) \<Rightarrow> string \<Rightarrow> string \<Rightarrow> int
     \<Rightarrow> jsval list \<Rightarrow> formatted_match list \<times> jsval list" where
  "getFormattedMatchesAsJson json_parse fetch apiUrlBase proxyUrl timestamp lc =
     (case fetchOddsData json_parse fetch apiUrlBase proxyUrl 1 timestamp lc of
        (fetched, lc') \<Rightarrow> (formatData fetched, lc'))"

section \<open>Notions used in the statements\<close>

text \<open>The identifier of a match: the value at index 3.\<close>

definition matchId :: "normalized_match \<Rightarrow> jsval" where
  "matchId m = read_prop (raw_match m) 3"







text \<open>
  A 12-hour input without a space is \<open>hs @ ':' # ms @ p\<close> with two digit strings and a
  suffix. \<open>minutes_since_midnight\<close> is the time of day it denotes, \<open>clock12\<close> the 12-hour
  rendering of a time of day.
\<close>

definition is_digits :: "string \<Rightarrow> bool" where
  "is_digits s = (s \<noteq> [] \<and> list_all is_digit s)"

definition minutes_since_midnight :: "nat \<Rightarrow> nat \<Rightarrow> string \<Rightarrow> nat" where
  "minutes_since_midnight h m p =
     (if p = ''PM'' then (if h = 12 then 12 else h + 12) else (if h = 12 then 0 else h)) * 60 + m"

definition clock12 :: "nat \<Rightarrow> string" where
  "clock12 t =
     nat_to_string (if (t div 60) mod 12 = 0 then 12 else (t div 60) mod 12)
       @ CHR '':'' # padStart2 (nat_to_string (t mod 60))
       @ (if 12 \<le> t div 60 then ''PM'' else ''AM'')"

section \<open>The odds formatter\<close>

text \<open>
  C1, as amended: \<open>formatOdds(1, 50)\<close> is \<open>1+0.5\<close>, \<open>formatOdds(2, 0)\<close> is \<open>20\<close> (a value
  of 0 is appended as it is) and \<open>formatOdds(0, -1)\<close> is \<open>0\<close> (the value -0.01 is left out,
  and what remains is not the literal \<open>0-0.01\<close>).
\<close>

theorem formatOdds_vectors:
  "formatOdds (JNum 1) (JNum 50) = ''1+0.5'' \<and> formatOdds (JNum 2) (JNum 0) = ''20''
     \<and> formatOdds (JNum 0) (JNum (- 1)) = ''0''"
  by code_simp

text \<open>
  C1 as stated, with \<open>2\<close> for \<open>formatOdds(2, 0)\<close> and the empty string for
  \<open>formatOdds(0, -1)\<close>, does not hold.
\<close>

theorem formatOdds_vectors_counterexample:
  "\<not> (formatOdds (JNum 1) (JNum 50) = ''1+0.5'' \<and> formatOdds (JNum 2) (JNum 0) = ''2''
       \<and> formatOdds (JNum 0) (JNum (- 1)) = [])"
  by code_simp

subsection \<open>Decimal numerals\<close>

lemma digit_char_cases:
  assumes "d < 10"
  shows "digit_char d \<in> set ''0123456789''"
proof -
  from assms have "d = 0 \<or> d = 1 \<or> d = 2 \<or> d = 3 \<or> d = 4 \<or> d = 5 \<or> d = 6 \<or> d = 7 \<or> d = 8 \<or> d = 9"
    by arith
  then show ?thesis
    by (auto simp: digit_char_def)
qed




lemma nat_to_string_digits: "set (nat_to_string n) \<subseteq> set ''0123456789''"
proof (induction n rule: nat_to_string.induct)
  case (1 n)
  show ?case
  proof (cases "n < 10")
    case True
    then show ?thesis
      using digit_char_cases [of n] by (subst nat_to_string.simps) simp
  next
    case False
    have "n mod 10 < 10" by simp
    then have "digit_char (n mod 10) \<in> set ''0123456789''"
      by (rule digit_char_cases)
    with False "1.IH" show ?thesis
      by (subst nat_to_string.simps) simp
  qed
qed









section \<open>The time adjuster\<close>

text \<open>
  C7: \<open>subtract90Minutes\<close> maps \<open>10:30AM\<close> to \<open>9:00AM\<close>, \<open>12:15AM\<close> to \<open>10:45PM\<close> of the
  day before, and \<open>1:00PM\<close> to \<open>11:30AM\<close>.
\<close>

theorem subtract90Minutes_vectors:
  "subtract90Minutes (JStr ''10:30AM'') = Inr ''9:00AM''
     \<and> subtract90Minutes (JStr ''12:15AM'') = Inr ''10:45PM''
     \<and> subtract90Minutes (JStr ''1:00PM'') = Inr ''11:30AM''"
  by code_simp

text \<open>
  C6: with a space before the suffix the period is lost. The replacement puts a second
  space before \<open>PM\<close>, the split then gives an empty second piece, and the hour is read on
  a 24-hour clock: \<open>02:15 PM\<close> and \<open>02:15 AM\<close>, two times of day, both give \<open>12:45AM\<close>,
  where \<open>02:15 PM\<close> less 90 minutes is \<open>12:45PM\<close>.
\<close>

theorem subtract90Minutes_spaced_period:
  "subtract90Minutes (JStr ''02:15 PM'') = Inr ''12:45AM''
     \<and> subtract90Minutes (JStr ''02:15 AM'') = Inr ''12:45AM''"
  by code_simp

subsection \<open>Inputs without a space\<close>

text \<open>
  Without a space before the suffix the adjuster is right: on an hour up to 12 and a minute
  below 60 it returns the 12-hour rendering of the time of day 90 minutes earlier, modulo
  24 hours; two inputs that denote different times of day give different outputs; and the
  output has an hour from 1 to 12, two minute digits and the suffix.
\<close>

lemma space_before_period_suffix:
  assumes "\<forall>c\<in>set pre. c \<noteq> CHR ''A'' \<and> c \<noteq> CHR ''P''" and "p = ''AM'' \<or> p = ''PM''"
  shows "space_before_period (pre @ p) = pre @ CHR '' '' # p"
  using assms(1)
proof (induction pre)
  case Nil
  from assms(2) show ?case by auto
next
  case (Cons x pre)
  from assms(2) obtain b cs where bc: "pre @ p = b # cs"
    by (cases "pre @ p") auto
  from Cons.prems have "x \<noteq> CHR ''A''" "x \<noteq> CHR ''P''" by simp_all
  then have "space_before_period (x # b # cs) = x # space_before_period (b # cs)"
    by simp
  with bc Cons show ?case by simp
qed

lemma trim_id:
  assumes "s \<noteq> []" and "\<not> is_space (hd s)" and "\<not> is_space (last s)"
  shows "trim s = s"
proof -
  from assms have "dropWhile is_space s = s"
    by (simp add: dropWhile_eq_self_iff)
  moreover from assms have "dropWhile is_space (rev s) = rev s"
    by (simp add: dropWhile_eq_self_iff hd_rev)
  ultimately show ?thesis by (simp add: trim_def)
qed

lemma split_on_none: "c \<notin> set b \<Longrightarrow> split_on c b = [b]"
  by (induction b) auto

lemma split_on_first: "c \<notin> set a \<Longrightarrow> split_on c (a @ c # b) = a # split_on c b"
  by (induction a) auto

lemma is_digit_not_space: "is_digit c \<Longrightarrow> \<not> is_space c"
  by (auto simp: is_digit_def is_space_def)

lemma string_to_number_digits:
  assumes "is_digits ds"
  shows "string_to_number ds = Some (int (digits_to_nat ds))"
proof -
  from assms have ne: "ds \<noteq> []" and all: "list_all is_digit ds"
    by (simp_all add: is_digits_def)
  then have h: "is_digit (hd ds)" and l: "is_digit (last ds)"
    by (simp_all add: list_all_iff)
  then have "trim ds = ds"
    using ne by (intro trim_id) (simp_all add: is_digit_not_space)
  moreover from h have "hd ds \<noteq> CHR ''-''" "hd ds \<noteq> CHR ''+''"
    by (auto simp: is_digit_def)
  ultimately show ?thesis
    using ne all by (simp add: string_to_number_def)
qed

lemma int_to_string_nat: "int_to_string (int n) = nat_to_string n"
  by (simp add: int_to_string_def)

lemma is_digit_chars:
  assumes "is_digit c"
  shows "c \<noteq> CHR ''A''" and "c \<noteq> CHR ''P''" and "c \<noteq> CHR '' ''" and "c \<noteq> CHR '':''"
  using assms by (auto simp: is_digit_def)

lemma subtract90_parse:
  assumes hs: "is_digits hs" and ms: "is_digits ms" and p: "p = ''AM'' \<or> p = ''PM''"
  shows "split_on CHR '' '' (trim (space_before_period (hs @ CHR '':'' # ms @ p))) = [hs @ CHR '':'' # ms, p]"
    and "map string_to_number (split_on CHR '':'' (hs @ CHR '':'' # ms))
           = [Some (int (digits_to_nat hs)), Some (int (digits_to_nat ms))]"
proof -
  let ?pre = "hs @ CHR '':'' # ms"
  from hs ms have dig: "\<forall>c\<in>set hs \<union> set ms. is_digit c" and ne: "hs \<noteq> []"
    by (auto simp: is_digits_def list_all_iff)
  then have pre: "\<forall>c\<in>set ?pre. c \<noteq> CHR ''A'' \<and> c \<noteq> CHR ''P'' \<and> c \<noteq> CHR '' ''"
    using is_digit_chars by auto
  then have "space_before_period (?pre @ p) = ?pre @ CHR '' '' # p"
    using p by (intro space_before_period_suffix) auto
  then have sp: "space_before_period (hs @ CHR '':'' # ms @ p) = ?pre @ CHR '' '' # p"
    by simp
  from dig ne have "\<not> is_space (hd hs)"
    by (auto simp: is_digit_not_space)
  with ne p have "trim (?pre @ CHR '' '' # p) = ?pre @ CHR '' '' # p"
    by (intro trim_id) (auto simp: is_space_def)
  moreover from pre have "CHR '' '' \<notin> set ?pre" by blast
  then have "split_on CHR '' '' (?pre @ CHR '' '' # p) = ?pre # split_on CHR '' '' p"
    by (rule split_on_first)
  moreover from p have "split_on CHR '' '' p = [p]" by auto
  ultimately show "split_on CHR '' '' (trim (space_before_period (hs @ CHR '':'' # ms @ p))) = [?pre, p]"
    using sp by simp
  from dig have "CHR '':'' \<notin> set hs" "CHR '':'' \<notin> set ms"
    using is_digit_chars(4) by auto
  then have "split_on CHR '':'' ?pre = [hs, ms]"
    by (simp add: split_on_first split_on_none)
  with hs ms show "map string_to_number (split_on CHR '':'' ?pre)
           = [Some (int (digits_to_nat hs)), Some (int (digits_to_nat ms))]"
    by (simp add: string_to_number_digits)
qed

lemma minutes_bound:
  assumes "hh \<le> 12" and "mm < 60"
  shows "minutes_since_midnight hh mm p < 1440"
proof -
  have "(if p = ''PM'' then (if hh = 12 then 12 else hh + 12) else (if hh = 12 then 0 else hh)) \<le> 23"
    using assms(1) by simp
  then have "(if p = ''PM'' then (if hh = 12 then 12 else hh + 12) else (if hh = 12 then 0 else hh)) * 60 \<le> 23 * 60"
    by (rule mult_le_mono1)
  with assms(2) show ?thesis
    unfolding minutes_since_midnight_def by linarith
qed

lemma wrap_total:
  assumes "t0 < 1440"
  shows "(if int t0 - 90 < 0 then int t0 - 90 + 1440 else int t0 - 90) = int ((t0 + 1350) mod 1440)"
proof (cases "t0 < 90")
  case True
  then have "(t0 + 1350) mod 1440 = t0 + 1350" by simp
  with True show ?thesis by simp
next
  case False
  with assms have "(t0 + 1350) mod 1440 = t0 - 90"
    by (simp add: mod_if)
  with False show ?thesis by simp
qed

lemma subtract90_from_parts:
  assumes "split_on CHR '' '' (trim (space_before_period s)) = [tm, per]"
    and "map string_to_number (split_on CHR '':'' tm) = [Some a, Some b]"
  shows "subtract90 s =
     (let hour1 = (if per = ''PM'' \<and> a \<noteq> 12 then a + 12 else a);
          hour = (if per = ''AM'' \<and> hour1 = 12 then 0 else hour1);
          total1 = hour * 60 + b - 90;
          totalMinutes = (if total1 < 0 then total1 + 1440 else total1);
          newHour1 = js_rem (totalMinutes div 60) 12
      in int_to_string (if newHour1 = 0 then 12 else newHour1)
           @ CHR '':'' # padStart2 (int_to_string (js_rem totalMinutes 60))
           @ (if 12 \<le> totalMinutes div 60 then ''PM'' else ''AM''))"
  by (simp add: subtract90_def assms num_op_def num_to_string_def Let_def)

lemma hour24:
  assumes "p = ''AM'' \<or> p = ''PM''"
  shows "(if p = ''AM'' \<and> (if p = ''PM'' \<and> int hh \<noteq> 12 then int hh + 12 else int hh) = 12 then 0
          else (if p = ''PM'' \<and> int hh \<noteq> 12 then int hh + 12 else int hh))
           = int (if p = ''PM'' then (if hh = 12 then 12 else hh + 12) else (if hh = 12 then 0 else hh))"
proof (cases "p = ''PM''")
  case True
  then show ?thesis by simp
next
  case False
  with assms have "p = ''AM''" by simp
  then show ?thesis by simp
qed

lemma subtract90_unspaced:
  assumes hs: "is_digits hs" and ms: "is_digits ms" and p: "p = ''AM'' \<or> p = ''PM''"
    and h: "digits_to_nat hs \<le> 12" and m: "digits_to_nat ms < 60"
  shows "subtract90 (hs @ CHR '':'' # ms @ p)
           = clock12 ((minutes_since_midnight (digits_to_nat hs) (digits_to_nat ms) p + 1350) mod 1440)"
proof -
  define hh where "hh = digits_to_nat hs"
  define mm where "mm = digits_to_nat ms"
  define t0 where "t0 = minutes_since_midnight hh mm p"
  define t where "t = (t0 + 1350) mod 1440"
  note parse = subtract90_parse [OF hs ms p, folded hh_def mm_def]
  have t0: "t0 < 1440"
    unfolding t0_def using h m by (intro minutes_bound) (simp_all add: hh_def mm_def)
  have total0: "int (if p = ''PM'' then (if hh = 12 then 12 else hh + 12) else (if hh = 12 then 0 else hh)) * 60
                  + int mm = int t0"
    by (simp add: t0_def minutes_since_midnight_def)
  have total: "(if int t0 - 90 < 0 then int t0 - 90 + 1440 else int t0 - 90) = int t"
    unfolding t_def using t0 by (rule wrap_total)
  have rem60: "js_rem (int t) 60 = int (t mod 60)"
    by (simp add: js_rem_def zmod_int)
  have rem12: "js_rem (int t div 60) 12 = int ((t div 60) mod 12)"
    by (simp add: js_rem_def zmod_int zdiv_int)
  have ge: "(12 \<le> int t div 60) = (12 \<le> t div 60)"
    by (metis of_nat_le_iff of_nat_numeral zdiv_int)
  have "subtract90 (hs @ CHR '':'' # ms @ p)
          = int_to_string (int (if (t div 60) mod 12 = 0 then 12 else (t div 60) mod 12))
              @ CHR '':'' # padStart2 (int_to_string (int (t mod 60)))
              @ (if 12 \<le> t div 60 then ''PM'' else ''AM'')"
    unfolding subtract90_from_parts [OF parse] Let_def hour24 [OF p] total0 total rem60 rem12 ge
    by simp
  then show ?thesis
    by (simp add: clock12_def int_to_string_nat t_def t0_def hh_def mm_def)
qed

lemma digit_val_digit_char:
  assumes "d < 10"
  shows "digit_val (digit_char d) = d"
proof -
  from assms have "d = 0 \<or> d = 1 \<or> d = 2 \<or> d = 3 \<or> d = 4 \<or> d = 5 \<or> d = 6 \<or> d = 7 \<or> d = 8 \<or> d = 9"
    by arith
  then show ?thesis
    by (auto simp: digit_char_def digit_val_def)
qed

lemma digits_to_nat_snoc: "digits_to_nat (xs @ [c]) = 10 * digits_to_nat xs + digit_val c"
  by (simp add: digits_to_nat_def)

lemma digits_to_nat_nat_to_string: "digits_to_nat (nat_to_string n) = n"
proof (induction n rule: nat_to_string.induct)
  case (1 n)
  show ?case
  proof (cases "n < 10")
    case True
    then show ?thesis
      by (simp add: nat_to_string.simps [of n] digits_to_nat_def digit_val_digit_char)
  next
    case False
    with "1.IH" show ?thesis
      by (simp add: nat_to_string.simps [of n] digits_to_nat_snoc digit_val_digit_char)
  qed
qed

lemma nat_to_string_inj: "nat_to_string a = nat_to_string b \<Longrightarrow> a = b"
  by (metis digits_to_nat_nat_to_string)

lemma digit_char_inj:
  assumes "a < 10" and "b < 10" and "digit_char a = digit_char b"
  shows "a = b"
  using assms by (metis digit_val_digit_char)

lemma two_digits:
  assumes "m < 100"
  shows "padStart2 (nat_to_string m) = [digit_char (m div 10), digit_char (m mod 10)]"
proof (cases "m < 10")
  case True
  then show ?thesis
    by (simp add: nat_to_string.simps [of m] padStart2_def digit_char_def)
next
  case False
  from assms have "m div 10 < 10" by simp
  with False show ?thesis
    by (simp add: nat_to_string.simps [of m] nat_to_string.simps [of "m div 10"] padStart2_def)
qed

lemma append_colon_eq:
  assumes "CHR '':'' \<notin> set a" and "CHR '':'' \<notin> set a'" and "a @ CHR '':'' # b = a' @ CHR '':'' # b'"
  shows "a = a' \<and> b = b'"
  using assms
proof (induction a arbitrary: a')
  case Nil
  then show ?case by (cases a') auto
next
  case (Cons x a)
  then show ?case by (cases a') auto
qed

lemma nat_to_string_no_colon: "CHR '':'' \<notin> set (nat_to_string n)"
  using nat_to_string_digits [of n] by auto

lemma hour_eq:
  fixes a b :: nat
  assumes "a mod 12 = b mod 12" and "a < 24" and "b < 24" and "(12 \<le> a) = (12 \<le> b)"
  shows "a = b"
proof (cases "12 \<le> a")
  case True
  with assms(4) have b: "12 \<le> b" by simp
  from True assms(2) have "a mod 12 = a - 12"
    by (simp add: le_mod_geq)
  moreover from b assms(3) have "b mod 12 = b - 12"
    by (simp add: le_mod_geq)
  ultimately show ?thesis
    using assms(1) True b by linarith
next
  case False
  with assms(4) have "\<not> 12 \<le> b" by simp
  with False assms(1) show ?thesis by simp
qed

lemma wrap_mod:
  fixes a :: nat
  assumes "a < 1440"
  shows "(a + 1350) mod 1440 = (if a < 90 then a + 1350 else a - 90)"
  using assms by (simp add: mod_if)

lemma clock12_inj:
  assumes "t1 < 1440" and "t2 < 1440" and eq: "clock12 t1 = clock12 t2"
  shows "t1 = t2"
proof -
  let ?H = "\<lambda>t::nat. if (t div 60) mod 12 = 0 then 12 else (t div 60) mod 12"
  let ?P = "\<lambda>t::nat. if 12 \<le> t div 60 then ''PM'' else ''AM''"
  have m: "t1 mod 60 < 100" "t2 mod 60 < 100"
    by (simp_all add: less_trans [OF mod_less_divisor])
  from eq have "nat_to_string (?H t1) @ CHR '':'' # (padStart2 (nat_to_string (t1 mod 60)) @ ?P t1)
      = nat_to_string (?H t2) @ CHR '':'' # (padStart2 (nat_to_string (t2 mod 60)) @ ?P t2)"
    by (simp add: clock12_def)
  then have hs: "nat_to_string (?H t1) = nat_to_string (?H t2)"
    and rest: "padStart2 (nat_to_string (t1 mod 60)) @ ?P t1 = padStart2 (nat_to_string (t2 mod 60)) @ ?P t2"
    using append_colon_eq [OF nat_to_string_no_colon nat_to_string_no_colon] by blast+
  from hs have H: "?H t1 = ?H t2"
    by (rule nat_to_string_inj)
  from rest have d1: "digit_char (t1 mod 60 div 10) = digit_char (t2 mod 60 div 10)"
    and d2: "digit_char (t1 mod 60 mod 10) = digit_char (t2 mod 60 mod 10)"
    and P: "?P t1 = ?P t2"
    by (simp_all add: two_digits [OF m(1)] two_digits [OF m(2)])
  have "t1 mod 60 div 10 = t2 mod 60 div 10"
    using d1 by (rule digit_char_inj [rotated 2]) simp_all
  moreover have "t1 mod 60 mod 10 = t2 mod 60 mod 10"
    using d2 by (rule digit_char_inj [rotated 2]) simp_all
  ultimately have mins: "t1 mod 60 = t2 mod 60"
    by (metis div_mult_mod_eq)
  from P have half: "(12 \<le> t1 div 60) = (12 \<le> t2 div 60)"
    by (simp split: if_splits)
  have lt: "(t1 div 60) mod 12 < 12" "(t2 div 60) mod 12 < 12" by simp_all
  from H lt have "(t1 div 60) mod 12 = (t2 div 60) mod 12"
    by (simp split: if_splits)
  moreover from assms(1,2) have "t1 div 60 < 24" "t2 div 60 < 24" by simp_all
  ultimately have "t1 div 60 = t2 div 60"
    using half by (rule hour_eq)
  with mins show ?thesis
    by (metis div_mult_mod_eq)
qed

lemma wrap_inj:
  assumes "a < 1440" and "b < 1440" and "(a + 1350) mod 1440 = (b + 1350) mod (1440::nat)"
  shows "a = b"
  using assms unfolding wrap_mod [OF assms(1)] wrap_mod [OF assms(2)]
  by (simp split: if_splits)

lemma clock12_shape:
  "\<exists>H M. 1 \<le> H \<and> H \<le> 12 \<and> M < 60
     \<and> clock12 t = nat_to_string H @ CHR '':'' # digit_char (M div 10) # digit_char (M mod 10)
         # (if 12 \<le> t div 60 then ''PM'' else ''AM'')"
proof -
  let ?H = "if (t div 60) mod 12 = 0 then 12 else (t div 60) mod 12"
  have "t mod 60 < 100"
    by (simp add: less_trans [OF mod_less_divisor])
  then have "clock12 t = nat_to_string ?H @ CHR '':'' # digit_char (t mod 60 div 10)
      # digit_char (t mod 60 mod 10) # (if 12 \<le> t div 60 then ''PM'' else ''AM'')"
    by (simp add: clock12_def two_digits)
  moreover have "1 \<le> ?H" and "?H \<le> 12"
    by (simp_all add: less_imp_le)
  moreover have "t mod 60 < 60" by simp
  ultimately show ?thesis by blast
qed

lemma subtract90_unspaced_injective:
  assumes "is_digits hs" and "is_digits ms" and "p = ''AM'' \<or> p = ''PM''"
    and "digits_to_nat hs \<le> 12" and "digits_to_nat ms < 60"
    and "is_digits hs'" and "is_digits ms'" and "p' = ''AM'' \<or> p' = ''PM''"
    and "digits_to_nat hs' \<le> 12" and "digits_to_nat ms' < 60"
    and ne: "minutes_since_midnight (digits_to_nat hs) (digits_to_nat ms) p
           \<noteq> minutes_since_midnight (digits_to_nat hs') (digits_to_nat ms') p'"
  shows "subtract90 (hs @ CHR '':'' # ms @ p) \<noteq> subtract90 (hs' @ CHR '':'' # ms' @ p')"
proof
  let ?t = "minutes_since_midnight (digits_to_nat hs) (digits_to_nat ms) p"
  let ?t' = "minutes_since_midnight (digits_to_nat hs') (digits_to_nat ms') p'"
  assume "subtract90 (hs @ CHR '':'' # ms @ p) = subtract90 (hs' @ CHR '':'' # ms' @ p')"
  then have "clock12 ((?t + 1350) mod 1440) = clock12 ((?t' + 1350) mod 1440)"
    using assms(1-10) by (simp add: subtract90_unspaced)
  then have eq: "(?t + 1350) mod 1440 = (?t' + 1350) mod 1440"
    by (rule clock12_inj [rotated 2]) simp_all
  have "?t < 1440" and "?t' < 1440"
    using assms(4,5,9,10) by (simp_all add: minutes_bound)
  then have "?t = ?t'"
    using eq by (rule wrap_inj)
  with ne show False by simp
qed

section \<open>The raw data fetcher\<close>

text \<open>
  C2, as amended: when the parsed payload is a sequence, \<open>fetchAndProcessData\<close> returns the
  empty sequence if it has 3 or fewer elements, and its element at index 3 if it has 4 or
  more.
\<close>

theorem fetchAndProcessData_index3:
  assumes "fetch (fullUrl apiUrlBase proxyUrl lid timestamp) = Responded r"
    and "ok r"
    and "body r = Some rawText"
    and "json_parse (replace_quotes rawText) = Some (JArr xs)"
  shows "fetchAndProcessData json_parse fetch apiUrlBase proxyUrl lid timestamp
           = Inr (if length xs \<le> 3 then JArr [] else xs ! 3)"
  using assms by (simp add: fetchAndProcessData_def fetchAndProcessData_try_def)

text \<open>A payload of five elements gives the fourth, a payload of three the empty sequence.\<close>

theorem fetchAndProcessData_index3_witness:
  "fetchAndProcessData (\<lambda>s. Some (JArr [JNum 10, JNum 11, JNum 12, JNum 13, JNum 14]))
       (\<lambda>u. Responded \<lparr>ok = True, status = 200, body = Some ''[10,11,12,13,14]''\<rparr>) ''api'' ''proxy'' 1 0
     = Inr (JNum 13)
   \<and> fetchAndProcessData (\<lambda>s. Some (JArr [JNum 10, JNum 11, JNum 12]))
       (\<lambda>u. Responded \<lparr>ok = True, status = 200, body = Some ''[10,11,12]''\<rparr>) ''api'' ''proxy'' 1 0
     = Inr (JArr [])"
  using fetchAndProcessData_index3 [of "\<lambda>u. Responded \<lparr>ok = True, status = 200, body = Some ''[10,11,12,13,14]''\<rparr>"
      "''api''" "''proxy''" 1 0 "\<lparr>ok = True, status = 200, body = Some ''[10,11,12,13,14]''\<rparr>" "''[10,11,12,13,14]''"
      "\<lambda>s. Some (JArr [JNum 10, JNum 11, JNum 12, JNum 13, JNum 14])" "[JNum 10, JNum 11, JNum 12, JNum 13, JNum 14]"]
    fetchAndProcessData_index3 [of "\<lambda>u. Responded \<lparr>ok = True, status = 200, body = Some ''[10,11,12]''\<rparr>"
      "''api''" "''proxy''" 1 0 "\<lparr>ok = True, status = 200, body = Some ''[10,11,12]''\<rparr>" "''[10,11,12]''"
      "\<lambda>s. Some (JArr [JNum 10, JNum 11, JNum 12])" "[JNum 10, JNum 11, JNum 12]"]
  by simp

text \<open>
  C2 as stated fails on a sequence of exactly 4 elements: the element at index 3 is
  returned, not the empty sequence.
\<close>

theorem fetchAndProcessData_four_elements_counterexample:
  "length [JNum 10, JNum 11, JNum 12, JNum 13] \<le> 4
   \<and> fetchAndProcessData (\<lambda>s. Some (JArr [JNum 10, JNum 11, JNum 12, JNum 13]))
       (\<lambda>u. Responded \<lparr>ok = True, status = 200, body = Some ''[10,11,12,13]''\<rparr>) ''api'' ''proxy'' 1 0
     = Inr (JNum 13)
   \<and> Inr (JNum 13) \<noteq> (Inr (JArr []) :: js_error + jsval)"
  by (simp add: fetchAndProcessData_def fetchAndProcessData_try_def)

text \<open>
  C3: \<open>fetchAndProcessData\<close> always returns a value and never raises; when the request is
  rejected, the status is not a success, the body cannot be read, the text does not parse,
  or the parsed value is not a sequence, the value returned is the empty sequence.
\<close>

theorem fetchAndProcessData_never_throws:
  "(\<exists>v. fetchAndProcessData json_parse fetch apiUrlBase proxyUrl lid timestamp = Inr v)
   \<and> (fetch (fullUrl apiUrlBase proxyUrl lid timestamp) = Rejected
        \<longrightarrow> fetchAndProcessData json_parse fetch apiUrlBase proxyUrl lid timestamp = Inr (JArr []))
   \<and> (\<forall>r. fetch (fullUrl apiUrlBase proxyUrl lid timestamp) = Responded r \<and> \<not> ok r
        \<longrightarrow> fetchAndProcessData json_parse fetch apiUrlBase proxyUrl lid timestamp = Inr (JArr []))
   \<and> (\<forall>r. fetch (fullUrl apiUrlBase proxyUrl lid timestamp) = Responded r \<and> body r = None
        \<longrightarrow> fetchAndProcessData json_parse fetch apiUrlBase proxyUrl lid timestamp = Inr (JArr []))
   \<and> (\<forall>r rawText. fetch (fullUrl apiUrlBase proxyUrl lid timestamp) = Responded r \<and> ok r
          \<and> body r = Some rawText \<and> json_parse (replace_quotes rawText) = None
        \<longrightarrow> fetchAndProcessData json_parse fetch apiUrlBase proxyUrl lid timestamp = Inr (JArr []))
   \<and> (\<forall>r rawText parsed. fetch (fullUrl apiUrlBase proxyUrl lid timestamp) = Responded r \<and> ok r
          \<and> body r = Some rawText \<and> json_parse (replace_quotes rawText) = Some parsed \<and> \<not> isArray parsed
        \<longrightarrow> fetchAndProcessData json_parse fetch apiUrlBase proxyUrl lid timestamp = Inr (JArr []))"
  by (auto simp: fetchAndProcessData_def fetchAndProcessData_try_def
      split: fetch_outcome.splits option.splits sum.splits jsval.splits)

text \<open>One run for each way of failing.\<close>

theorem fetchAndProcessData_never_throws_witness:
  "fetchAndProcessData (\<lambda>s. None) (\<lambda>u. Rejected) ''api'' ''proxy'' 1 0 = Inr (JArr [])
   \<and> fetchAndProcessData (\<lambda>s. Some (JArr [JNum 10, JNum 11, JNum 12, JNum 13]))
        (\<lambda>u. Responded \<lparr>ok = False, status = 502, body = Some ''Bad Gateway''\<rparr>) ''api'' ''proxy'' 1 0
      = Inr (JArr [])
   \<and> fetchAndProcessData (\<lambda>s. Some (JArr [JNum 10, JNum 11, JNum 12, JNum 13]))
        (\<lambda>u. Responded \<lparr>ok = True, status = 200, body = None\<rparr>) ''api'' ''proxy'' 1 0
      = Inr (JArr [])
   \<and> fetchAndProcessData (\<lambda>s. None)
        (\<lambda>u. Responded \<lparr>ok = True, status = 200, body = Some ''<html>''\<rparr>) ''api'' ''proxy'' 1 0
      = Inr (JArr [])
   \<and> fetchAndProcessData (\<lambda>s. Some (JObj [(''error'', JStr ''timeout'')]))
        (\<lambda>u. Responded \<lparr>ok = True, status = 200, body = Some ''{error: timeout}''\<rparr>) ''api'' ''proxy'' 1 0
      = Inr (JArr [])"
  using fetchAndProcessData_never_throws [of "\<lambda>s. None" "\<lambda>u. Rejected" "''api''" "''proxy''" 1 0]
    fetchAndProcessData_never_throws [of "\<lambda>s. Some (JArr [JNum 10, JNum 11, JNum 12, JNum 13])"
      "\<lambda>u. Responded \<lparr>ok = False, status = 502, body = Some ''Bad Gateway''\<rparr>" "''api''" "''proxy''" 1 0]
    fetchAndProcessData_never_throws [of "\<lambda>s. Some (JArr [JNum 10, JNum 11, JNum 12, JNum 13])"
      "\<lambda>u. Responded \<lparr>ok = True, status = 200, body = None\<rparr>" "''api''" "''proxy''" 1 0]
    fetchAndProcessData_never_throws [of "\<lambda>s. None"
      "\<lambda>u. Responded \<lparr>ok = True, status = 200, body = Some ''<html>''\<rparr>" "''api''" "''proxy''" 1 0]
    fetchAndProcessData_never_throws [of "\<lambda>s. Some (JObj [(''error'', JStr ''timeout'')])"
      "\<lambda>u. Responded \<lparr>ok = True, status = 200, body = Some ''{error: timeout}''\<rparr>" "''api''" "''proxy''" 1 0]
  by simp

section \<open>The match normalizer\<close>

subsection \<open>First occurrences\<close>






subsection \<open>The iterations of fetchOddsData\<close>









section \<open>The response projector\<close>



section \<open>The pipeline\<close>

subsection \<open>The league collection does not reach the output\<close>

lemma collectMatch_locals:
  assumes "uniqueMatchIds s1 = uniqueMatchIds s2" and "finalArr s1 = finalArr s2"
  shows "rel_sum (\<lambda>a b. fst a = fst b)
           (\<lambda>t1 t2. uniqueMatchIds t1 = uniqueMatchIds t2 \<and> finalArr t1 = finalArr t2)
           (collectMatch leagueMeta s1 m) (collectMatch leagueMeta s2 m)"
  using assms by (simp add: collectMatch_def get_prop_def Let_def)

lemma forEach_rel:
  assumes step: "\<And>s1 s2 x. R s1 s2 \<Longrightarrow> rel_sum (\<lambda>a b. fst a = fst b) R (f s1 x) (f s2 x)"
    and "R s1 s2"
  shows "rel_sum (\<lambda>a b. fst a = fst b) R (forEach f xs s1) (forEach f xs s2)"
  using \<open>R s1 s2\<close>
proof (induction xs arbitrary: s1 s2)
  case Nil
  then show ?case by simp
next
  case (Cons x xs)
  note r = step [OF Cons.prems, of x]
  show ?case
  proof (cases "f s1 x")
    case l1: (Inl a)
    with r show ?thesis by (cases "f s2 x") simp_all
  next
    case r1: (Inr t1)
    show ?thesis
    proof (cases "f s2 x")
      case (Inl b)
      with r r1 show ?thesis by simp
    next
      case (Inr t2)
      with r r1 have "R t1 t2" by simp
      from Cons.IH [OF this] r1 Inr show ?thesis by simp
    qed
  qed
qed

lemma collectLeague_locals:
  assumes "uniqueMatchIds s1 = uniqueMatchIds s2 \<and> finalArr s1 = finalArr s2"
  shows "rel_sum (\<lambda>a b. fst a = fst b)
           (\<lambda>t1 t2. uniqueMatchIds t1 = uniqueMatchIds t2 \<and> finalArr t1 = finalArr t2)
           (collectLeague s1 el) (collectLeague s2 el)"
proof (cases "destructure_pair el")
  case (Inl e)
  with assms show ?thesis by (simp add: collectLeague_def)
next
  case (Inr p)
  obtain leagueMeta matches where p: "p = (leagueMeta, matches)" by (cases p)
  show ?thesis
  proof (cases "isArray matches")
    case True
    then obtain ms where "matches = JArr ms" by (cases matches) auto
    with Inr p assms show ?thesis
      using forEach_rel [of "\<lambda>t1 t2. uniqueMatchIds t1 = uniqueMatchIds t2 \<and> finalArr t1 = finalArr t2"
          "collectMatch leagueMeta" s1 s2 ms]
      by (simp add: collectLeague_def collectMatch_locals)
  next
    case False
    with Inr p assms show ?thesis
      by (cases matches) (simp_all add: collectLeague_def)
  qed
qed

lemma collectMatches_leagueCollection:
  "fst (collectMatches result lc1) = fst (collectMatches result lc2)"
proof (cases result)
  case (JArr els)
  let ?s1 = "\<lparr>uniqueMatchIds = [], finalArr = [], leagueCollection = lc1\<rparr>"
  let ?s2 = "\<lparr>uniqueMatchIds = [], finalArr = [], leagueCollection = lc2\<rparr>"
  have "rel_sum (\<lambda>a b. fst a = fst b)
           (\<lambda>t1 t2. uniqueMatchIds t1 = uniqueMatchIds t2 \<and> finalArr t1 = finalArr t2)
           (forEach collectLeague els ?s1) (forEach collectLeague els ?s2)"
    by (rule forEach_rel) (simp_all add: collectLeague_locals)
  then show ?thesis
    by (cases "forEach collectLeague els ?s1"; cases "forEach collectLeague els ?s2")
       (auto simp: collectMatches_def JArr Let_def)
qed (simp_all add: collectMatches_def)

lemma fetchAndProcessData_outcome:
  assumes "fetch (fullUrl apiUrlBase proxyUrl lid timestamp) = fetch' (fullUrl apiUrlBase' proxyUrl' lid' timestamp')"
  shows "fetchAndProcessData json_parse fetch apiUrlBase proxyUrl lid timestamp
           = fetchAndProcessData json_parse fetch' apiUrlBase' proxyUrl' lid' timestamp'"
  using assms by (simp add: fetchAndProcessData_def fetchAndProcessData_try_def)

text \<open>
  C8: the array returned by a run is determined by what the relay answers. Two runs that
  receive the same answer return the same array, whatever their timestamps, which only
  enter the requested URL, and whatever \<open>leagueCollection\<close> held before each run.
\<close>

theorem pipeline_deterministic:
  assumes "fetch (fullUrl apiUrlBase proxyUrl 1 timestamp) = fetch' (fullUrl apiUrlBase proxyUrl 1 timestamp')"
  shows "fst (getFormattedMatchesAsJson json_parse fetch apiUrlBase proxyUrl timestamp lc)
           = fst (getFormattedMatchesAsJson json_parse fetch' apiUrlBase proxyUrl timestamp' lc')"
proof -
  have "fst (fetchOddsData json_parse fetch apiUrlBase proxyUrl 1 timestamp lc)
          = fst (fetchOddsData json_parse fetch' apiUrlBase proxyUrl 1 timestamp' lc')"
    using assms
      fetchAndProcessData_outcome [of fetch apiUrlBase proxyUrl 1 timestamp fetch' apiUrlBase proxyUrl 1
        timestamp' json_parse]
      collectMatches_leagueCollection [of _ lc lc']
    by (simp add: fetchOddsData_def split: sum.splits)
  moreover have "fst (getFormattedMatchesAsJson p f a u t c) = formatData (fst (fetchOddsData p f a u 1 t c))"
    for p f a u t c
    by (simp add: getFormattedMatchesAsJson_def split: prod.splits)
  ultimately show ?thesis
    by simp
qed

text \<open>
  Two runs with different timestamps, hence different URLs, and different league
  collections, on the same answer of the relay.
\<close>

theorem pipeline_deterministic_witness:
  "fullUrl ''https://odds.example/data?lid='' ''https://relay.example/exec?url='' 1 1000
     \<noteq> fullUrl ''https://odds.example/data?lid='' ''https://relay.example/exec?url='' 1 2000
   \<and> fst (getFormattedMatchesAsJson
        (\<lambda>s. Some (JArr [JNull, JNull, JNull,
           JArr [JArr [JArr [JStr ''L1'', JStr ''Premier''],
                       JArr [JArr ((replicate 56 (JNum 0))
                         [3 := JNum 7, 8 := JStr ''2:00PM'', 16 := JStr ''Home'', 20 := JStr ''Away'',
                          34 := JNum 1, 50 := JNum (- 70), 51 := JNum 250, 55 := JNum 2])]]]]))
        (\<lambda>u. Responded \<lparr>ok = True, status = 200, body = Some ''payload''\<rparr>)
        ''https://odds.example/data?lid='' ''https://relay.example/exec?url='' 1000 [])
     = fst (getFormattedMatchesAsJson
        (\<lambda>s. Some (JArr [JNull, JNull, JNull,
           JArr [JArr [JArr [JStr ''L1'', JStr ''Premier''],
                       JArr [JArr ((replicate 56 (JNum 0))
                         [3 := JNum 7, 8 := JStr ''2:00PM'', 16 := JStr ''Home'', 20 := JStr ''Away'',
                          34 := JNum 1, 50 := JNum (- 70), 51 := JNum 250, 55 := JNum 2])]]]]))
        (\<lambda>u. Responded \<lparr>ok = True, status = 200, body = Some ''payload''\<rparr>)
        ''https://odds.example/data?lid='' ''https://relay.example/exec?url='' 2000 [JStr ''Serie A''])"
proof -
  have u: "fullUrl ''https://odds.example/data?lid='' ''https://relay.example/exec?url='' 1 1000
     \<noteq> fullUrl ''https://odds.example/data?lid='' ''https://relay.example/exec?url='' 1 2000"
    by code_simp
  show ?thesis
    using u pipeline_deterministic
      [of "\<lambda>u. Responded \<lparr>ok = True, status = 200, body = Some ''payload''\<rparr>"
        "''https://odds.example/data?lid=''" "''https://relay.example/exec?url=''" 1000
        "\<lambda>u. Responded \<lparr>ok = True, status = 200, body = Some ''payload''\<rparr>" 2000 _ "[]" "[JStr ''Serie A'']"]
    by simp
qed

subsection \<open>Payloads on which no stage raises\<close>














end
